theory Spec2Isabelle
  imports Main
begin

section \<open>Errors\<close>

text \<open>
  The exceptions of the program, as values.  Python raises \<open>KeyError\<close> from both
  dictionaries; the two constructors keep apart which dictionary raised it.
\<close>

datatype error =
    UnknownLocation       \<comment> \<open>\<open>KeyError\<close> of \<open>self._locations[...]\<close>\<close>
  | KeyNotFound           \<comment> \<open>\<open>KeyError\<close> of \<open>self._roads[...]\<close>\<close>
  | InvalidTreeOperation  \<comment> \<open>the specification's name for refusing a second parent\<close>
  | DisconnectedNodes     \<comment> \<open>the two nodes have no common ancestor\<close>
  | AttributeError        \<comment> \<open>an attribute the object does not have\<close>

section \<open>Tree nodes in a store\<close>

text \<open>
  Tree nodes are mutable objects that refer to each other, so they live in a store:
  a list of nodes, the address of a node being its index.  A node is allocated by
  appending it.
\<close>

type_synonym addr = nat

record 'loc Tree =
  node_value :: 'loc
  parent :: "addr option"
  children :: "addr list"

type_synonym 'loc store = "'loc Tree list"

text \<open>
  Modelled from the spec: the class \<open>Tree\<close> (module \<open>yatry.utils.models.tree\<close>) is not
  among the sources.  A new node holds its value, has no parent and no children.
\<close>

definition Tree_new :: "'loc \<Rightarrow> 'loc Tree" where
  "Tree_new v = \<lparr>node_value = v, parent = None, children = []\<rparr>"

text \<open>
  Modelled from the spec: \<open>Tree.add_child\<close>.  It attaches \<open>c\<close> as the last child of
  \<open>p\<close> and sets the parent link of \<open>c\<close> to \<open>p\<close>.  That \<open>c\<close> has no parent yet is a
  precondition the source leaves unchecked: a parent link that \<open>c\<close> already has is
  overwritten, and nothing is raised.
\<close>

definition add_child :: "'loc store \<Rightarrow> addr \<Rightarrow> addr \<Rightarrow> 'loc store" where
  "add_child h p c =
     (let h1 = h[c := (h ! c)\<lparr>parent := Some p\<rparr>]
      in h1[p := (h1 ! p)\<lparr>children := children (h1 ! p) @ [c]\<rparr>])"

text \<open>
  Modelled from the spec: \<open>Tree.path_to_root\<close>.  The nodes from \<open>a\<close> up to the root,
  following parent links until a node has none.  On a cycle of parent links the walk
  never ends: the value is \<open>None\<close>.
\<close>

partial_function (option) path_to_root :: "'loc store \<Rightarrow> addr \<Rightarrow> addr list option" where
  "path_to_root h a =
     (case parent (h ! a) of
        None \<Rightarrow> Some [a]
      | Some p \<Rightarrow> Option.bind (path_to_root h p) (\<lambda>ps. Some (a # ps)))"

section \<open>The symmetric dictionary\<close>

text \<open>
  Modelled from the spec: the class \<open>SymmetricKeyDict\<close> (module
  \<open>yatry.utils.models.symm_dict\<close>) is not among the sources.  A value is stored under
  the unordered pair of the two keys; a later write to the same pair wins; reading a
  pair that was never written fails with \<open>KeyNotFound\<close>.
\<close>

type_synonym ('k, 'v) SymmetricKeyDict = "'k set \<rightharpoonup> 'v"

text \<open>
  Modelled from the spec: \<open>SymmetricKeyDict.__setitem__\<close>, the \<open>set(a, b, value)\<close> of
  the specification, as in \<open>self._roads[loc_from, loc_to] = fare\<close>.
\<close>

definition symm_set :: "('k, 'v) SymmetricKeyDict \<Rightarrow> 'k \<Rightarrow> 'k \<Rightarrow> 'v \<Rightarrow> ('k, 'v) SymmetricKeyDict" where
  "symm_set d a b v = d({a, b} \<mapsto> v)"

text \<open>
  Modelled from the spec: \<open>SymmetricKeyDict.__getitem__\<close>, the \<open>get(a, b)\<close> of the
  specification, as in \<open>self._roads[loc_1, loc_2]\<close>.
\<close>

definition symm_get :: "('k, 'v) SymmetricKeyDict \<Rightarrow> 'k \<Rightarrow> 'k \<Rightarrow> error + 'v" where
  "symm_get d a b = (case d {a, b} of None \<Rightarrow> Inl KeyNotFound | Some v \<Rightarrow> Inr v)"

section \<open>Route finding between two nodes\<close>

text \<open>
  Modelled from the spec: the function \<open>find_route\<close> (module \<open>yatry.utils.optim.route\<close>)
  is not among the sources; \<open>split_common\<close> is the second step of its algorithm.  Both
  ancestor chains are read from the root end; the last node they share is the lowest
  common ancestor.  \<open>split_common xs ys l\<close> drops the common prefix of the two
  root-first chains and returns the last common node with what is left of each chain.
\<close>

fun split_common :: "addr list \<Rightarrow> addr list \<Rightarrow> addr option \<Rightarrow> addr option \<times> addr list \<times> addr list" where
  "split_common (x # xs) (y # ys) l =
     (if x = y then split_common xs ys (Some x) else (l, x # xs, y # ys))"
| "split_common xs ys l = (l, xs, ys)"

text \<open>
  Modelled from the spec: the third step of \<open>find_route\<close>.  The route is the chain of the
  start below the lowest common ancestor, from the start upwards, then the ancestor,
  then the chain of the end below it, downwards to the end.  Two chains that share no
  node fail with \<open>DisconnectedNodes\<close>.
\<close>

definition join_at_lca :: "addr list \<Rightarrow> addr list \<Rightarrow> error + addr list" where
  "join_at_lca ps pe =
     (case split_common (rev ps) (rev pe) None of
        (None, _, _) \<Rightarrow> Inl DisconnectedNodes
      | (Some lca, below_s, below_e) \<Rightarrow> Inr (rev below_s @ [lca] @ below_e))"

text \<open>
  Modelled from the spec: \<open>find_route\<close> itself.  The first step computes both walks to
  the root; when either never ends, neither does \<open>find_route\<close>.
\<close>

definition find_route :: "'loc store \<Rightarrow> addr \<Rightarrow> addr \<Rightarrow> (error + addr list) option" where
  "find_route h s e =
     (case path_to_root h s of
        None \<Rightarrow> None
      | Some ps \<Rightarrow>
          (case path_to_root h e of
             None \<Rightarrow> None
           | Some pe \<Rightarrow> Some (join_at_lca ps pe)))"

section \<open>The map\<close>

record ('loc, 'f) Map =
  roads :: "('loc, 'f) SymmetricKeyDict"
  root :: addr
  locations :: "'loc \<rightharpoonup> addr"
  heap :: "'loc store"

definition register_location :: "('loc, 'f) Map \<Rightarrow> 'loc \<Rightarrow> ('loc, 'f) Map" where
  "register_location m location =
     (if location \<notin> dom (locations m)
      then m\<lparr>locations := (locations m)(location \<mapsto> length (heap m)),
             heap := heap m @ [Tree_new location]\<rparr>
      else m)"

text \<open>
  The constructor.  The attribute \<open>_root\<close> does not exist before its assignment at the
  end; the record holds \<open>0\<close> there until then.
\<close>

definition Map_init :: "'loc \<Rightarrow> error + ('loc, 'f) Map" where
  "Map_init r =
     (let m = register_location
                \<lparr>roads = Map.empty, root = 0, locations = Map.empty, heap = []\<rparr> r
      in case locations m r of
           None \<Rightarrow> Inl UnknownLocation
         | Some a \<Rightarrow> Inr (m\<lparr>root := a\<rparr>))"

text \<open>
  \<open>add_road\<close> returns what it raised, if anything, with the map as the call leaves it.
  The two lookups in \<open>_locations\<close> come first, then the call of \<open>add_child\<close>, then the
  store of the fare.
\<close>

definition add_road :: "('loc, 'f) Map \<Rightarrow> 'loc \<Rightarrow> 'loc \<Rightarrow> 'f \<Rightarrow> (error + unit) \<times> ('loc, 'f) Map" where
  "add_road m loc_from loc_to fare =
     (case locations m loc_from of
        None \<Rightarrow> (Inl UnknownLocation, m)
      | Some p \<Rightarrow>
          (case locations m loc_to of
             None \<Rightarrow> (Inl UnknownLocation, m)
           | Some c \<Rightarrow>
               (Inr (), m\<lparr>heap := add_child (heap m) p c,
                          roads := symm_set (roads m) loc_from loc_to fare\<rparr>)))"

definition get_road_fare :: "('loc, 'f) Map \<Rightarrow> 'loc \<Rightarrow> 'loc \<Rightarrow> error + 'f" where
  "get_road_fare m loc_1 loc_2 = symm_get (roads m) loc_1 loc_2"

definition Map_find_route :: "('loc, 'f) Map \<Rightarrow> 'loc \<Rightarrow> 'loc \<Rightarrow> (error + 'loc list) option" where
  "Map_find_route m loc_start loc_end =
     (case locations m loc_start of
        None \<Rightarrow> Some (Inl UnknownLocation)
      | Some s \<Rightarrow>
          (case locations m loc_end of
             None \<Rightarrow> Some (Inl UnknownLocation)
           | Some e \<Rightarrow>
               (case find_route (heap m) s e of
                  None \<Rightarrow> None
                | Some (Inl err) \<Rightarrow> Some (Inl err)
                | Some (Inr route) \<Rightarrow>
                    Some (Inr (map (\<lambda>place. node_value (heap m ! place)) route)))))"

text \<open>
  The pairs \<open>zip(route[:-1], route[1:])\<close> whose fares are looked up, the lookups in
  order (the first missing pair raises), and Python's \<open>sum\<close>, which starts from \<open>0\<close>
  and adds the fares from left to right.  Fares are of any type with a zero and an
  addition; no law of the addition is used.
\<close>

definition route_pairs :: "'loc list \<Rightarrow> ('loc \<times> 'loc) list" where
  "route_pairs route = zip (butlast route) (tl route)"

fun lookup_fares :: "('loc, 'f) SymmetricKeyDict \<Rightarrow> ('loc \<times> 'loc) list \<Rightarrow> error + 'f list" where
  "lookup_fares d [] = Inr []"
| "lookup_fares d ((loc_1, loc_2) # ps) =
     (case symm_get d loc_1 loc_2 of
        Inl err \<Rightarrow> Inl err
      | Inr v \<Rightarrow> (case lookup_fares d ps of Inl err \<Rightarrow> Inl err | Inr vs \<Rightarrow> Inr (v # vs)))"

definition py_sum :: "('f::{zero,plus}) list \<Rightarrow> 'f" where
  "py_sum vs = foldl (+) 0 vs"

definition get_fare_on_route :: "('loc, 'f::{zero,plus}) Map \<Rightarrow> 'loc list \<Rightarrow> error + 'f" where
  "get_fare_on_route m route =
     (case lookup_fares (roads m) (route_pairs route) of
        Inl err \<Rightarrow> Inl err
      | Inr vs \<Rightarrow> Inr (py_sum vs))"

definition make_trip :: "('loc, 'f::{zero,plus}) Map \<Rightarrow> 'loc \<Rightarrow> 'loc \<Rightarrow> (error + 'loc list \<times> 'f) option" where
  "make_trip m loc_start loc_end =
     (case Map_find_route m loc_start loc_end of
        None \<Rightarrow> None
      | Some (Inl err) \<Rightarrow> Some (Inl err)
      | Some (Inr route) \<Rightarrow>
          (case get_fare_on_route m route of
             Inl err \<Rightarrow> Some (Inl err)
           | Inr fare \<Rightarrow> Some (Inr (route, fare))))"

section \<open>Passengers\<close>

record ('loc, 't) Passenger =
  name :: string
  src :: 'loc
  dst :: 'loc
  t_dep_bracket :: "'t \<times> 't"

text \<open>
  The values that the attributes of a \<open>Passenger\<close> hold, and attribute access by name:
  an instance has the four attributes of the dataclass and, among the names used here,
  no other.
\<close>

datatype ('loc, 't) py_value = Str string | Loc 'loc | Bracket 't 't

definition Passenger_getattr :: "('loc, 't) Passenger \<Rightarrow> string \<Rightarrow> error + ('loc, 't) py_value" where
  "Passenger_getattr p attr =
     (if attr = ''name'' then Inr (Str (Passenger.name p))
      else if attr = ''src'' then Inr (Loc (src p))
      else if attr = ''dst'' then Inr (Loc (dst p))
      else if attr = ''t_dep_bracket'' then Inr (Bracket (fst (t_dep_bracket p)) (snd (t_dep_bracket p)))
      else Inl AttributeError)"

text \<open>
  \<open>get_passenger_route_fare\<close> reads \<open>passenger.source\<close>, then
  \<open>passenger.destination\<close>, then calls \<open>make_trip\<close>.  A value that is not a location
  is not a key of \<open>_locations\<close>.
\<close>

definition get_passenger_route_fare ::
  "('loc, 'f::{zero,plus}) Map \<Rightarrow> ('loc, 't) Passenger \<Rightarrow> (error + 'loc list \<times> 'f) option" where
  "get_passenger_route_fare m passenger =
     (case Passenger_getattr passenger ''source'' of
        Inl err \<Rightarrow> Some (Inl err)
      | Inr s \<Rightarrow>
          (case Passenger_getattr passenger ''destination'' of
             Inl err \<Rightarrow> Some (Inl err)
           | Inr d \<Rightarrow>
               (case (s, d) of
                  (Loc loc_start, Loc loc_end) \<Rightarrow> make_trip m loc_start loc_end
                | _ \<Rightarrow> Some (Inl UnknownLocation))))"

section \<open>Places\<close>

text \<open>
  A \<open>Place\<close> object: its identity (what \<open>id(self)\<close> returns, different for any two
  objects alive together) and its one field.  The dataclass gives \<open>__eq__\<close>, which
  compares the fields; the class defines \<open>__hash__\<close> as \<open>id(self)\<close>.  A dictionary
  takes two keys for the same key when their hashes are equal and they are the same
  object or compare equal.
\<close>

record Place =
  place_id :: nat
  name :: string

definition Place_eq :: "Place \<Rightarrow> Place \<Rightarrow> bool" where
  "Place_eq p q \<longleftrightarrow> Place.name p = Place.name q"

definition Place_hash :: "Place \<Rightarrow> int" where
  "Place_hash p = int (place_id p)"

definition same_dict_key :: "Place \<Rightarrow> Place \<Rightarrow> bool" where
  "same_dict_key p q \<longleftrightarrow> Place_hash p = Place_hash q \<and> (place_id p = place_id q \<or> Place_eq p q)"

section \<open>Reachable maps and their invariants\<close>

text \<open>
  The maps a program can hold: built by the constructor, then changed by
  \<open>register_location\<close> and \<open>add_road\<close>.  A call of \<open>add_road\<close> that raises leaves a map
  behind too, the one it was given.
\<close>

inductive reachable :: "('loc, 'f) Map \<Rightarrow> bool" where
  init: "Map_init r = Inr m \<Longrightarrow> reachable m"
| register: "reachable m \<Longrightarrow> reachable (register_location m l)"
| road: "reachable m \<Longrightarrow> reachable (snd (add_road m a b f))"

text \<open>
  The registry and the store agree: a registered location maps to an allocated node
  holding that location, and every allocated node is the one registered for its value.
\<close>

definition nodes_registered :: "('loc, 'f) Map \<Rightarrow> bool" where
  "nodes_registered m \<longleftrightarrow>
     (\<forall>l a. locations m l = Some a \<longrightarrow> a < length (heap m) \<and> node_value (heap m ! a) = l) \<and>
     (\<forall>a. a < length (heap m) \<longrightarrow> locations m (node_value (heap m ! a)) = Some a)"

definition links_allocated :: "('loc, 'f) Map \<Rightarrow> bool" where
  "links_allocated m \<longleftrightarrow>
     (\<forall>a p. a < length (heap m) \<longrightarrow> parent (heap m ! a) = Some p \<longrightarrow> p < length (heap m)) \<and>
     (\<forall>a c. a < length (heap m) \<longrightarrow> c \<in> set (children (heap m ! a)) \<longrightarrow> c < length (heap m))"

text \<open>Every location in the key of a stored road is registered.\<close>

definition road_ends_registered :: "('loc, 'f) Map \<Rightarrow> bool" where
  "road_ends_registered m \<longleftrightarrow> (\<forall>k l. k \<in> dom (roads m) \<longrightarrow> l \<in> k \<longrightarrow> l \<in> dom (locations m))"

text \<open>
  Every tree edge, read from the parent link of the child or from the child list of
  the parent, has a fare stored for the pair of its two locations.
\<close>

definition edges_have_fares :: "('loc, 'f) Map \<Rightarrow> bool" where
  "edges_have_fares m \<longleftrightarrow>
     (\<forall>a p. a < length (heap m) \<longrightarrow> parent (heap m ! a) = Some p \<longrightarrow>
        {node_value (heap m ! p), node_value (heap m ! a)} \<in> dom (roads m)) \<and>
     (\<forall>a c. a < length (heap m) \<longrightarrow> c \<in> set (children (heap m ! a)) \<longrightarrow>
        {node_value (heap m ! a), node_value (heap m ! c)} \<in> dom (roads m))"

definition map_inv :: "('loc, 'f) Map \<Rightarrow> bool" where
  "map_inv m \<longleftrightarrow> nodes_registered m \<and> links_allocated m \<and> road_ends_registered m \<and> edges_have_fares m"

text \<open>The chain of parent links from a node ends at a node without a parent.\<close>

inductive chain_ends :: "'loc store \<Rightarrow> addr \<Rightarrow> bool" where
  top: "parent (h ! a) = None \<Longrightarrow> chain_ends h a"
| up: "parent (h ! a) = Some p \<Longrightarrow> chain_ends h p \<Longrightarrow> chain_ends h a"

text \<open>
  The chain of parent links from \<open>a\<close> ends at a node without a parent and does not pass
  through \<open>c\<close>.
\<close>

inductive chain_avoids :: "'loc store \<Rightarrow> addr \<Rightarrow> addr \<Rightarrow> bool" for h c where
  top: "a \<noteq> c \<Longrightarrow> parent (h ! a) = None \<Longrightarrow> chain_avoids h c a"
| up: "a \<noteq> c \<Longrightarrow> parent (h ! a) = Some q \<Longrightarrow> chain_avoids h c q \<Longrightarrow> chain_avoids h c a"

text \<open>
  The maps built as the docstring of \<open>add_road\<close> asks: a road is added into a location
  whose node has no parent yet and does not lie on the chain from the node of
  \<open>loc_from\<close> to its root.
\<close>

inductive tree_built :: "('loc, 'f) Map \<Rightarrow> bool" where
  init: "Map_init r = Inr m \<Longrightarrow> tree_built m"
| register: "tree_built m \<Longrightarrow> tree_built (register_location m l)"
| road: "tree_built m \<Longrightarrow> locations m A = Some p \<Longrightarrow> locations m B = Some c \<Longrightarrow>
         parent (heap m ! c) = None \<Longrightarrow> chain_avoids (heap m) c p \<Longrightarrow>
         tree_built (snd (add_road m A B f))"

text \<open>Every allocated node has a chain of parent links that ends.\<close>

definition all_chains_end :: "('loc, 'f) Map \<Rightarrow> bool" where
  "all_chains_end m \<longleftrightarrow> (\<forall>a. a < length (heap m) \<longrightarrow> chain_ends (heap m) a)"

section \<open>Example maps\<close>

text \<open>
  The enumeration \<open>Location\<close> (module \<open>yatry.utils.data.locations\<close>) is not among the
  sources, and the map is defined for any type of locations.  The examples use the
  locations that the specification names.  \<open>city\<close> is the map the constructor returns
  for the city centre; \<open>city_roads\<close> has both suburbs registered, a road from the
  centre to the first suburb and one from there to the second.
\<close>

datatype example_location = CityCenter | Suburb1 | Suburb2 | Elsewhere

definition city :: "(example_location, int) Map" where
  "city = \<lparr>roads = Map.empty, root = 0, locations = [CityCenter \<mapsto> 0],
           heap = [Tree_new CityCenter]\<rparr>"

definition city_suburbs :: "(example_location, int) Map" where
  "city_suburbs = register_location (register_location city Suburb1) Suburb2"

definition city_roads :: "(example_location, int) Map" where
  "city_roads =
     snd (add_road (snd (add_road city_suburbs CityCenter Suburb1 10)) Suburb1 Suburb2 5)"

text \<open>A passenger from the city centre to the second suburb.\<close>

definition traveller :: "(example_location, int) Passenger" where
  "traveller = \<lparr>Passenger.name = ''Asha'', src = CityCenter, dst = Suburb2, t_dep_bracket = (8, 9)\<rparr>"

section \<open>The store under \<open>add_child\<close>\<close>

lemma add_child_length: "length (add_child h p c) = length h"
  by (simp add: add_child_def Let_def)

lemma add_child_value:
  "p < length h \<Longrightarrow> c < length h \<Longrightarrow> node_value (add_child h p c ! a) = node_value (h ! a)"
  by (auto simp: add_child_def Let_def nth_list_update)

lemma add_child_parent:
  "p < length h \<Longrightarrow> c < length h \<Longrightarrow>
   parent (add_child h p c ! a) = (if a = c then Some p else parent (h ! a))"
  by (auto simp: add_child_def Let_def nth_list_update)

lemma add_child_children:
  "p < length h \<Longrightarrow> c < length h \<Longrightarrow>
   children (add_child h p c ! a) = (if a = p then children (h ! a) @ [c] else children (h ! a))"
  by (auto simp: add_child_def Let_def nth_list_update)

section \<open>The invariants hold of every reachable map\<close>

lemma nodes_registeredD:
  "nodes_registered m \<Longrightarrow> locations m l = Some a \<Longrightarrow> a < length (heap m) \<and> node_value (heap m ! a) = l"
  unfolding nodes_registered_def by blast

lemma nodes_registeredD2:
  "nodes_registered m \<Longrightarrow> a < length (heap m) \<Longrightarrow> locations m (node_value (heap m ! a)) = Some a"
  unfolding nodes_registered_def by blast

lemma links_allocatedD1:
  "links_allocated m \<Longrightarrow> a < length (heap m) \<Longrightarrow> parent (heap m ! a) = Some p \<Longrightarrow> p < length (heap m)"
  unfolding links_allocated_def by blast

lemma links_allocatedD2:
  "links_allocated m \<Longrightarrow> a < length (heap m) \<Longrightarrow> c \<in> set (children (heap m ! a)) \<Longrightarrow> c < length (heap m)"
  unfolding links_allocated_def by blast

lemma edges_have_faresD1:
  "edges_have_fares m \<Longrightarrow> a < length (heap m) \<Longrightarrow> parent (heap m ! a) = Some p \<Longrightarrow>
   {node_value (heap m ! p), node_value (heap m ! a)} \<in> dom (roads m)"
  unfolding edges_have_fares_def by blast

lemma edges_have_faresD2:
  "edges_have_fares m \<Longrightarrow> a < length (heap m) \<Longrightarrow> c \<in> set (children (heap m ! a)) \<Longrightarrow>
   {node_value (heap m ! a), node_value (heap m ! c)} \<in> dom (roads m)"
  unfolding edges_have_fares_def by blast

lemma road_ends_registeredD:
  "road_ends_registered m \<Longrightarrow> roads m k = Some v \<Longrightarrow> l \<in> k \<Longrightarrow> \<exists>a. locations m l = Some a"
  unfolding road_ends_registered_def by blast

lemma Map_init_eq:
  "Map_init r = Inr \<lparr>roads = Map.empty, root = 0, locations = [r \<mapsto> 0], heap = [Tree_new r]\<rparr>"
  by (simp add: Map_init_def register_location_def)

lemma nodes_registered_init:
  "nodes_registered \<lparr>roads = Map.empty, root = 0, locations = [r \<mapsto> 0], heap = [Tree_new r]\<rparr>"
  by (simp add: nodes_registered_def Tree_new_def)

lemma links_allocated_init:
  "links_allocated \<lparr>roads = Map.empty, root = 0, locations = [r \<mapsto> 0], heap = [Tree_new r]\<rparr>"
  by (simp add: links_allocated_def Tree_new_def)

lemma road_ends_registered_init:
  "road_ends_registered \<lparr>roads = Map.empty, root = 0, locations = [r \<mapsto> 0], heap = [Tree_new r]\<rparr>"
  by (simp add: road_ends_registered_def)

lemma edges_have_fares_init:
  "edges_have_fares \<lparr>roads = Map.empty, root = 0, locations = [r \<mapsto> 0], heap = [Tree_new r]\<rparr>"
  by (simp add: edges_have_fares_def Tree_new_def)

lemma map_inv_init:
  assumes "Map_init r = Inr m"
  shows "map_inv m"
proof -
  have "m = \<lparr>roads = Map.empty, root = 0, locations = [r \<mapsto> 0], heap = [Tree_new r]\<rparr>"
    using assms by (simp add: Map_init_eq)
  then show ?thesis
    by (simp only: map_inv_def nodes_registered_init links_allocated_init
        road_ends_registered_init edges_have_fares_init simp_thms)
qed

lemma register_location_new:
  "locations m l = None \<Longrightarrow>
   register_location m l = m\<lparr>locations := (locations m)(l \<mapsto> length (heap m)),
                              heap := heap m @ [Tree_new l]\<rparr>"
  by (simp add: register_location_def dom_def)

lemma register_location_old:
  "locations m l = Some a \<Longrightarrow> register_location m l = m"
  by (simp add: register_location_def dom_def)

lemma nodes_registered_register:
  assumes "nodes_registered m"
  shows "nodes_registered (register_location m l)"
proof (cases "locations m l")
  case None
  show ?thesis
    unfolding register_location_new[OF None]
    using assms None
    by (auto simp: nodes_registered_def nth_append Tree_new_def less_Suc_eq)
next
  case (Some a)
  then show ?thesis using assms by (simp add: register_location_old)
qed

lemma links_allocated_register:
  assumes "links_allocated m"
  shows "links_allocated (register_location m l)"
proof (cases "locations m l")
  case None
  let ?h = "heap m @ [Tree_new l]"
  have par: "p < length ?h" if "a < length ?h" "parent (?h ! a) = Some p" for a p
  proof (cases "a < length (heap m)")
    case True
    then have "parent (heap m ! a) = Some p" using that by (simp add: nth_append)
    then have "p < length (heap m)" using assms True by (rule links_allocatedD1[rotated 2])
    then show ?thesis by simp
  next
    case False
    then have "a = length (heap m)" using that by simp
    then show ?thesis using that by (simp add: Tree_new_def)
  qed
  have chi: "c < length ?h" if "a < length ?h" "c \<in> set (children (?h ! a))" for a c
  proof (cases "a < length (heap m)")
    case True
    then have "c \<in> set (children (heap m ! a))" using that by (simp add: nth_append)
    then have "c < length (heap m)" using assms True by (rule links_allocatedD2[rotated 2])
    then show ?thesis by simp
  next
    case False
    then have "a = length (heap m)" using that by simp
    then show ?thesis using that by (simp add: Tree_new_def)
  qed
  have heq: "heap (register_location m l) = ?h"
    by (simp add: register_location_new[OF None])
  show ?thesis
    unfolding links_allocated_def heq
  proof (intro conjI allI impI)
    fix a p assume "a < length ?h" "parent (?h ! a) = Some p"
    then show "p < length ?h" by (rule par)
  next
    fix a c assume "a < length ?h" "c \<in> set (children (?h ! a))"
    then show "c < length ?h" by (rule chi)
  qed
next
  case (Some a)
  then show ?thesis using assms by (simp add: register_location_old)
qed

lemma road_ends_registered_register:
  assumes "road_ends_registered m"
  shows "road_ends_registered (register_location m l)"
proof (cases "locations m l")
  case None
  show ?thesis
    unfolding register_location_new[OF None]
    using assms
    by (auto simp: road_ends_registered_def)
next
  case (Some a)
  then show ?thesis using assms by (simp add: register_location_old)
qed

lemma edges_have_fares_register:
  assumes "edges_have_fares m" "links_allocated m"
  shows "edges_have_fares (register_location m l)"
proof (cases "locations m l")
  case None
  let ?h = "heap m @ [Tree_new l]"
  have par: "{node_value (?h ! p), node_value (?h ! a)} \<in> dom (roads m)"
    if "a < length ?h" "parent (?h ! a) = Some p" for a p
  proof (cases "a < length (heap m)")
    case True
    then have pa: "parent (heap m ! a) = Some p" using that by (simp add: nth_append)
    then have "p < length (heap m)" using assms(2) True by (rule links_allocatedD1[rotated 2])
    moreover have "{node_value (heap m ! p), node_value (heap m ! a)} \<in> dom (roads m)"
      using assms(1) True pa by (rule edges_have_faresD1)
    ultimately show ?thesis using True by (simp add: nth_append)
  next
    case False
    then have "a = length (heap m)" using that by simp
    then show ?thesis using that by (simp add: Tree_new_def)
  qed
  have chi: "{node_value (?h ! a), node_value (?h ! c)} \<in> dom (roads m)"
    if "a < length ?h" "c \<in> set (children (?h ! a))" for a c
  proof (cases "a < length (heap m)")
    case True
    then have ca: "c \<in> set (children (heap m ! a))" using that by (simp add: nth_append)
    then have "c < length (heap m)" using assms(2) True by (rule links_allocatedD2[rotated 2])
    moreover have "{node_value (heap m ! a), node_value (heap m ! c)} \<in> dom (roads m)"
      using assms(1) True ca by (rule edges_have_faresD2)
    ultimately show ?thesis using True by (simp add: nth_append)
  next
    case False
    then have "a = length (heap m)" using that by simp
    then show ?thesis using that by (simp add: Tree_new_def)
  qed
  have heq: "heap (register_location m l) = ?h" "roads (register_location m l) = roads m"
    by (simp_all add: register_location_new[OF None])
  show ?thesis
    unfolding edges_have_fares_def heq
  proof (intro conjI allI impI)
    fix a p assume "a < length ?h" "parent (?h ! a) = Some p"
    then show "{node_value (?h ! p), node_value (?h ! a)} \<in> dom (roads m)" by (rule par)
  next
    fix a c assume "a < length ?h" "c \<in> set (children (?h ! a))"
    then show "{node_value (?h ! a), node_value (?h ! c)} \<in> dom (roads m)" by (rule chi)
  qed
next
  case (Some a)
  then show ?thesis using assms by (simp add: register_location_old)
qed

lemma map_inv_register: "map_inv m \<Longrightarrow> map_inv (register_location m l)"
  by (simp add: map_inv_def nodes_registered_register links_allocated_register
      road_ends_registered_register edges_have_fares_register)

lemma add_road_cases:
  obtains
    (unknown) "add_road m A B f = (Inl UnknownLocation, m)"
  | (ok) p c where "locations m A = Some p" "locations m B = Some c"
      "add_road m A B f =
         (Inr (), m\<lparr>heap := add_child (heap m) p c, roads := symm_set (roads m) A B f\<rparr>)"
proof (cases "locations m A")
  case None
  then have "add_road m A B f = (Inl UnknownLocation, m)" by (simp add: add_road_def)
  then show ?thesis by (rule unknown)
next
  case SomeA: (Some p)
  show ?thesis
  proof (cases "locations m B")
    case None
    then have "add_road m A B f = (Inl UnknownLocation, m)"
      using SomeA by (simp add: add_road_def)
    then show ?thesis by (rule unknown)
  next
    case SomeB: (Some c)
    then have "add_road m A B f =
        (Inr (), m\<lparr>heap := add_child (heap m) p c, roads := symm_set (roads m) A B f\<rparr>)"
      using SomeA by (simp add: add_road_def)
    then show ?thesis using SomeA SomeB ok by blast
  qed
qed

lemma add_road_succeeds:
  assumes "locations m A = Some p" and "locations m B = Some c"
  shows "add_road m A B f =
           (Inr (), m\<lparr>heap := add_child (heap m) p c, roads := symm_set (roads m) A B f\<rparr>)"
  using assms by (simp add: add_road_def)

lemma map_inv_add_child:
  assumes inv: "map_inv m"
    and A: "locations m A = Some p" and B: "locations m B = Some c"
  shows "map_inv (m\<lparr>heap := add_child (heap m) p c, roads := symm_set (roads m) A B f\<rparr>)"
proof -
  define h' where "h' = add_child (heap m) p c"
  let ?m = "m\<lparr>heap := h', roads := symm_set (roads m) A B f\<rparr>"
  from inv have nr: "nodes_registered m" and la: "links_allocated m"
    and rr: "road_ends_registered m" and ef: "edges_have_fares m"
    by (simp_all add: map_inv_def)
  have p: "p < length (heap m)" and vp: "node_value (heap m ! p) = A"
    using nodes_registeredD[OF nr A] by simp_all
  have c: "c < length (heap m)" and vc: "node_value (heap m ! c) = B"
    using nodes_registeredD[OF nr B] by simp_all
  have len: "length h' = length (heap m)" unfolding h'_def by (rule add_child_length)
  have val: "node_value (h' ! a) = node_value (heap m ! a)" for a
    unfolding h'_def using p c by (rule add_child_value)
  have par: "parent (h' ! a) = (if a = c then Some p else parent (heap m ! a))" for a
    unfolding h'_def using p c by (rule add_child_parent)
  have chi: "children (h' ! a) = (if a = p then children (heap m ! a) @ [c] else children (heap m ! a))" for a
    unfolding h'_def using p c by (rule add_child_children)
  have hp: "heap ?m = h'" and lo: "locations ?m = locations m"
    and ro: "roads ?m = (roads m)({A, B} \<mapsto> f)"
    by (simp_all add: symm_set_def)
  have 1: "nodes_registered ?m"
    unfolding nodes_registered_def hp lo len val
    using nr unfolding nodes_registered_def by blast
  have 2: "links_allocated ?m"
    unfolding links_allocated_def hp len
  proof (intro conjI allI impI)
    fix a q assume a: "a < length (heap m)" and "parent (h' ! a) = Some q"
    then have "(a = c \<and> q = p) \<or> parent (heap m ! a) = Some q"
      by (simp add: par split: if_splits)
    then show "q < length (heap m)" using p a links_allocatedD1[OF la] by blast
  next
    fix a d assume a: "a < length (heap m)" and "d \<in> set (children (h' ! a))"
    then have "d = c \<or> d \<in> set (children (heap m ! a))"
      by (auto simp: chi split: if_splits)
    then show "d < length (heap m)" using c a links_allocatedD2[OF la] by blast
  qed
  have 3: "road_ends_registered ?m"
    unfolding road_ends_registered_def lo ro
  proof (intro allI impI)
    fix k l assume k: "k \<in> dom ((roads m)({A, B} \<mapsto> f))" and l: "l \<in> k"
    show "l \<in> dom (locations m)"
    proof (cases "k = {A, B}")
      case True
      then show ?thesis using l A B by auto
    next
      case False
      then have "k \<in> dom (roads m)" using k by auto
      then show ?thesis using rr l unfolding road_ends_registered_def by blast
    qed
  qed
  have 4: "edges_have_fares ?m"
    unfolding edges_have_fares_def hp len ro val
  proof (intro conjI allI impI)
    fix a q assume a: "a < length (heap m)" and "parent (h' ! a) = Some q"
    then have "(a = c \<and> q = p) \<or> parent (heap m ! a) = Some q"
      by (simp add: par split: if_splits)
    then show "{node_value (heap m ! q), node_value (heap m ! a)} \<in> dom ((roads m)({A, B} \<mapsto> f))"
    proof
      assume "a = c \<and> q = p"
      then show ?thesis using vp vc by simp
    next
      assume "parent (heap m ! a) = Some q"
      then have "{node_value (heap m ! q), node_value (heap m ! a)} \<in> dom (roads m)"
        using ef a by (rule edges_have_faresD1[rotated 2])
      then show ?thesis by auto
    qed
  next
    fix a d assume a: "a < length (heap m)" and "d \<in> set (children (h' ! a))"
    then have "(a = p \<and> d = c) \<or> d \<in> set (children (heap m ! a))"
      by (auto simp: chi split: if_splits)
    then show "{node_value (heap m ! a), node_value (heap m ! d)} \<in> dom ((roads m)({A, B} \<mapsto> f))"
    proof
      assume "a = p \<and> d = c"
      then show ?thesis using vp vc by simp
    next
      assume "d \<in> set (children (heap m ! a))"
      then have "{node_value (heap m ! a), node_value (heap m ! d)} \<in> dom (roads m)"
        using ef a by (rule edges_have_faresD2[rotated 2])
      then show ?thesis by auto
    qed
  qed
  show ?thesis unfolding map_inv_def h'_def[symmetric] using 1 2 3 4 by blast
qed

lemma map_inv_add_road: "map_inv m \<Longrightarrow> map_inv (snd (add_road m A B f))"
  by (rule add_road_cases[of m A B f]) (simp_all add: map_inv_add_child)

lemma reachable_inv: "reachable m \<Longrightarrow> map_inv m"
  by (induction rule: reachable.induct) (simp_all add: map_inv_init map_inv_register map_inv_add_road)


section \<open>Ancestor chains and routes\<close>

lemma path_to_root_chain:
  "chain_ends h a \<Longrightarrow> \<exists>ps. path_to_root h a = Some (a # ps)"
proof (induction rule: chain_ends.induct)
  case (top h a)
  then show ?case by (subst path_to_root.simps) simp
next
  case (up h a p)
  then obtain ps where "path_to_root h p = Some (p # ps)" by blast
  then have "path_to_root h a = Some (a # p # ps)"
    using up.hyps(1) by (subst path_to_root.simps) simp
  then show ?case by blast
qed

lemma split_common_same:
  "xs \<noteq> [] \<Longrightarrow> split_common xs xs l = (Some (last xs), [], [])"
proof (induction xs arbitrary: l)
  case Nil
  then show ?case by simp
next
  case (Cons x xs)
  then show ?case by (cases xs) simp_all
qed

lemma join_at_lca_same: "join_at_lca (a # ps) (a # ps) = Inr [a]"
  by (simp add: join_at_lca_def split_common_same)

lemma find_route_same:
  "chain_ends h a \<Longrightarrow> find_route h a a = Some (Inr [a])"
  using path_to_root_chain[of h a] by (auto simp: find_route_def join_at_lca_same)

lemma find_route_errors:
  "find_route h s e = Some (Inl err) \<Longrightarrow> err = DisconnectedNodes"
  by (auto simp: find_route_def join_at_lca_def split: option.splits prod.splits)



section \<open>Maps built as trees\<close>

lemma tree_built_reachable: "tree_built m \<Longrightarrow> reachable m"
  by (induction rule: tree_built.induct) (auto intro: reachable.intros)

lemma chain_avoids_add_child:
  assumes "chain_avoids h c a" and "p < length h" and "c < length h"
  shows "chain_ends (add_child h p c) a"
  using assms
proof (induction rule: chain_avoids.induct)
  case (top a)
  then have "parent (add_child h p c ! a) = None" by (simp add: add_child_parent)
  then show ?case by (rule chain_ends.top)
next
  case (up a q)
  then have "parent (add_child h p c ! a) = Some q" by (simp add: add_child_parent)
  moreover have "chain_ends (add_child h p c) q" using up by simp
  ultimately show ?case by (rule chain_ends.up)
qed

lemma chain_ends_add_child:
  assumes "chain_ends h a" and "parent (h ! c) = None" and "chain_avoids h c p"
    and "p < length h" and "c < length h"
  shows "chain_ends (add_child h p c) a"
  using assms
proof (induction rule: chain_ends.induct)
  case (top h a)
  show ?case
  proof (cases "a = c")
    case True
    have "parent (add_child h p c ! c) = Some p" using top by (simp add: add_child_parent)
    moreover have "chain_ends (add_child h p c) p"
      using top by (simp add: chain_avoids_add_child)
    ultimately show ?thesis unfolding True by (rule chain_ends.up)
  next
    case False
    then have "parent (add_child h p c ! a) = None" using top by (simp add: add_child_parent)
    then show ?thesis by (rule chain_ends.top)
  qed
next
  case (up h a q)
  then have "a \<noteq> c" by auto
  then have "parent (add_child h p c ! a) = Some q" using up by (simp add: add_child_parent)
  moreover have "chain_ends (add_child h p c) q" using up by simp
  ultimately show ?case by (rule chain_ends.up)
qed

lemma chain_ends_append:
  assumes "chain_ends h a" and "a < length h"
    and "\<And>x q. x < length h \<Longrightarrow> parent (h ! x) = Some q \<Longrightarrow> q < length h"
  shows "chain_ends (h @ [n]) a"
  using assms
proof (induction rule: chain_ends.induct)
  case (top h a)
  then have "parent ((h @ [n]) ! a) = None" by (simp add: nth_append)
  then show ?case by (rule chain_ends.top)
next
  case (up h a q)
  then have "parent ((h @ [n]) ! a) = Some q" by (simp add: nth_append)
  moreover have "q < length h" using up.prems up.hyps(1) by blast
  then have "chain_ends (h @ [n]) q" using up by blast
  ultimately show ?case by (rule chain_ends.up)
qed

lemma all_chains_end_register:
  assumes "all_chains_end m" and "links_allocated m"
  shows "all_chains_end (register_location m l)"
proof (cases "locations m l")
  case None
  have "chain_ends (heap m @ [Tree_new l]) a" if "a < length (heap m @ [Tree_new l])" for a
  proof (cases "a < length (heap m)")
    case True
    then have "chain_ends (heap m) a" using assms(1) by (simp add: all_chains_end_def)
    then show ?thesis using True links_allocatedD1[OF assms(2)] by (rule chain_ends_append)
  next
    case False
    then have "a = length (heap m)" using that by simp
    then have "parent ((heap m @ [Tree_new l]) ! a) = None" by (simp add: Tree_new_def)
    then show ?thesis by (rule chain_ends.top)
  qed
  then show ?thesis
    unfolding all_chains_end_def by (simp add: register_location_new[OF None])
next
  case (Some a)
  then show ?thesis using assms by (simp add: register_location_old)
qed

lemma tree_built_chains: "tree_built m \<Longrightarrow> all_chains_end m"
proof (induction rule: tree_built.induct)
  case (init r m)
  then have m: "m = \<lparr>roads = Map.empty, root = 0, locations = [r \<mapsto> 0], heap = [Tree_new r]\<rparr>"
    by (simp add: Map_init_eq)
  have "chain_ends [Tree_new r] 0" by (rule chain_ends.top) (simp add: Tree_new_def)
  then show ?case by (simp add: all_chains_end_def m)
next
  case (register m l)
  have "map_inv m" using register.hyps by (intro reachable_inv tree_built_reachable)
  then have "links_allocated m" by (simp add: map_inv_def)
  then show ?case using register.IH by (intro all_chains_end_register)
next
  case (road m A p B c f)
  have "map_inv m" using road.hyps(1) by (intro reachable_inv tree_built_reachable)
  then have nr: "nodes_registered m" by (simp add: map_inv_def)
  have p: "p < length (heap m)" using nodes_registeredD[OF nr road.hyps(2)] by simp
  have c: "c < length (heap m)" using nodes_registeredD[OF nr road.hyps(3)] by simp
  have "chain_ends (add_child (heap m) p c) a" if "a < length (heap m)" for a
  proof -
    have "chain_ends (heap m) a" using road.IH that by (simp add: all_chains_end_def)
    then show ?thesis using road.hyps(4) road.hyps(5) p c by (rule chain_ends_add_child)
  qed
  then show ?case
    by (simp add: all_chains_end_def add_road_succeeds[OF road.hyps(2) road.hyps(3)]
        add_child_length)
qed

lemma tree_built_chain_ends:
  assumes "tree_built m" and "locations m X = Some a"
  shows "chain_ends (heap m) a"
proof -
  have "map_inv m" using assms(1) by (intro reachable_inv tree_built_reachable)
  then have nr: "nodes_registered m" by (simp add: map_inv_def)
  have "a < length (heap m)" using nodes_registeredD[OF nr assms(2)] by simp
  then show ?thesis using tree_built_chains[OF assms(1)] by (simp add: all_chains_end_def)
qed

section \<open>The example maps\<close>

lemma Map_init_city: "Map_init CityCenter = Inr city"
  by (simp add: Map_init_eq city_def)

lemma city_suburbs_eq:
  "city_suburbs =
     \<lparr>roads = Map.empty, root = 0,
      locations = [CityCenter \<mapsto> 0, Suburb1 \<mapsto> Suc 0, Suburb2 \<mapsto> Suc (Suc 0)],
      heap = [Tree_new CityCenter, Tree_new Suburb1, Tree_new Suburb2]\<rparr>"
  by (simp add: city_suburbs_def city_def register_location_def)

lemma add_road_city_suburbs:
  "add_road city_suburbs CityCenter Suburb1 10 =
     (Inr (),
      \<lparr>roads = [{CityCenter, Suburb1} \<mapsto> 10], root = 0,
       locations = [CityCenter \<mapsto> 0, Suburb1 \<mapsto> Suc 0, Suburb2 \<mapsto> Suc (Suc 0)],
       heap = [\<lparr>node_value = CityCenter, parent = None, children = [Suc 0]\<rparr>,
               \<lparr>node_value = Suburb1, parent = Some 0, children = []\<rparr>,
               \<lparr>node_value = Suburb2, parent = None, children = []\<rparr>]\<rparr>)"
  by (simp add: city_suburbs_eq add_road_def add_child_def symm_set_def Tree_new_def)

lemma city_roads_eq:
  "city_roads =
     \<lparr>roads = [{CityCenter, Suburb1} \<mapsto> 10, {Suburb1, Suburb2} \<mapsto> 5], root = 0,
      locations = [CityCenter \<mapsto> 0, Suburb1 \<mapsto> Suc 0, Suburb2 \<mapsto> Suc (Suc 0)],
      heap = [\<lparr>node_value = CityCenter, parent = None, children = [Suc 0]\<rparr>,
              \<lparr>node_value = Suburb1, parent = Some 0, children = [Suc (Suc 0)]\<rparr>,
              \<lparr>node_value = Suburb2, parent = Some (Suc 0), children = []\<rparr>]\<rparr>"
  unfolding city_roads_def add_road_city_suburbs
  by (simp add: add_road_def add_child_def symm_set_def)

lemma reachable_city: "reachable city"
  using Map_init_city by (rule reachable.init)

lemma reachable_city_suburbs: "reachable city_suburbs"
  unfolding city_suburbs_def by (intro reachable.register reachable_city)

lemma reachable_city_roads: "reachable city_roads"
  unfolding city_roads_def by (intro reachable.road reachable_city_suburbs)

lemma tree_built_city_roads: "tree_built city_roads"
proof -
  have "tree_built city" using Map_init_city by (rule tree_built.init)
  then have 0: "tree_built city_suburbs"
    unfolding city_suburbs_def by (intro tree_built.register)
  have "chain_avoids (heap city_suburbs) (Suc 0) 0"
    by (rule chain_avoids.top) (simp_all add: city_suburbs_eq Tree_new_def)
  then have 1: "tree_built (snd (add_road city_suburbs CityCenter Suburb1 10))"
    by (intro tree_built.road[OF 0, of CityCenter 0 Suburb1 "Suc 0"])
      (simp_all add: city_suburbs_eq Tree_new_def)
  let ?m = "snd (add_road city_suburbs CityCenter Suburb1 10)"
  have "chain_avoids (heap ?m) (Suc (Suc 0)) 0"
    by (rule chain_avoids.top) (simp_all add: add_road_city_suburbs)
  then have "chain_avoids (heap ?m) (Suc (Suc 0)) (Suc 0)"
    by (rule chain_avoids.up[rotated 2]) (simp_all add: add_road_city_suburbs)
  then show ?thesis
    unfolding city_roads_def
    by (intro tree_built.road[OF 1, of Suburb1 "Suc 0" Suburb2 "Suc (Suc 0)"])
      (simp_all add: add_road_city_suburbs)
qed

lemma path_to_root_city_roads:
  "path_to_root (heap city_roads) 0 = Some [0]"
  "path_to_root (heap city_roads) (Suc 0) = Some [Suc 0, 0]"
  "path_to_root (heap city_roads) (Suc (Suc 0)) = Some [Suc (Suc 0), Suc 0, 0]"
proof -
  show 0: "path_to_root (heap city_roads) 0 = Some [0]"
    by (subst path_to_root.simps) (simp add: city_roads_eq)
  have p1: "parent (heap city_roads ! Suc 0) = Some 0"
    and p2: "parent (heap city_roads ! Suc (Suc 0)) = Some (Suc 0)"
    by (simp_all add: city_roads_eq)
  show 1: "path_to_root (heap city_roads) (Suc 0) = Some [Suc 0, 0]"
    by (subst path_to_root.simps) (simp add: p1 0)
  show "path_to_root (heap city_roads) (Suc (Suc 0)) = Some [Suc (Suc 0), Suc 0, 0]"
    by (subst path_to_root.simps) (simp add: p2 1)
qed

lemma make_trip_city_roads:
  "make_trip city_roads CityCenter Suburb2 = Some (Inr ([CityCenter, Suburb1, Suburb2], 15))"
proof -
  have "find_route (heap city_roads) 0 (Suc (Suc 0)) = Some (Inr [0, Suc 0, Suc (Suc 0)])"
    by (simp add: find_route_def path_to_root_city_roads join_at_lca_def)
  then have "Map_find_route city_roads CityCenter Suburb2 = Some (Inr [CityCenter, Suburb1, Suburb2])"
    by (simp add: Map_find_route_def city_roads_eq)
  moreover have "get_fare_on_route city_roads [CityCenter, Suburb1, Suburb2] = Inr 15"
    by (simp add: get_fare_on_route_def route_pairs_def symm_get_def py_sum_def city_roads_eq
        doubleton_eq_iff)
  ultimately show ?thesis by (simp add: make_trip_def)
qed

section \<open>Reading a passenger\<close>

lemma get_passenger_route_fare_raises:
  "get_passenger_route_fare m p = Some (Inl AttributeError)"
  by (simp add: get_passenger_route_fare_def Passenger_getattr_def)

section \<open>Claims\<close>

text \<open>
  C1. \<open>get_passenger_route_fare\<close> should return what \<open>make_trip\<close> returns for the
  passenger's source and destination.  It does not: the dataclass \<open>Passenger\<close> names
  its fields \<open>src\<close> and \<open>dst\<close>, the method reads \<open>source\<close> and \<open>destination\<close>, and the
  call raises \<open>AttributeError\<close> where \<open>make_trip\<close> returns a route and a fare.
\<close>

theorem passenger_route_fare_raises:
  "get_passenger_route_fare city_roads traveller = Some (Inl AttributeError) \<and>
   make_trip city_roads (src traveller) (dst traveller) =
     Some (Inr ([CityCenter, Suburb1, Suburb2], 15))"
  using make_trip_city_roads
  by (simp add: get_passenger_route_fare_raises traveller_def)

text \<open>
  C2. After \<open>add_road m A B f\<close> has returned, the fare of the road between \<open>A\<close> and \<open>B\<close>
  is \<open>f\<close>, whichever of the two is given first.
\<close>

theorem add_road_fare_symmetric:
  assumes "fst (add_road m A B f) = Inr ()"
  shows "get_road_fare (snd (add_road m A B f)) A B = Inr f \<and>
         get_road_fare (snd (add_road m A B f)) B A = Inr f"
proof (rule add_road_cases[of m A B f])
  assume "add_road m A B f = (Inl UnknownLocation, m)"
  then show ?thesis using assms by simp
next
  fix p c
  assume "add_road m A B f =
    (Inr (), m\<lparr>heap := add_child (heap m) p c, roads := symm_set (roads m) A B f\<rparr>)"
  then show ?thesis
    by (simp add: get_road_fare_def symm_get_def symm_set_def insert_commute)
qed

theorem add_road_fare_symmetric_witness:
  "fst (add_road city_suburbs CityCenter Suburb1 10) = Inr () \<and>
   get_road_fare (snd (add_road city_suburbs CityCenter Suburb1 10)) CityCenter Suburb1 = Inr 10 \<and>
   get_road_fare (snd (add_road city_suburbs CityCenter Suburb1 10)) Suburb1 CityCenter = Inr 10"
proof -
  have h: "fst (add_road city_suburbs CityCenter Suburb1 10) = Inr ()"
    by (simp add: add_road_city_suburbs)
  show ?thesis using h add_road_fare_symmetric [OF h] by simp
qed

text \<open>
  C3. Route finding on the map raises \<open>UnknownLocation\<close> exactly when the start or the
  end is not registered: it does when either is missing, and it does not when both are
  registered.
\<close>

theorem find_route_unknown_location:
  "(locations m s = None \<or> locations m e = None \<longrightarrow>
      Map_find_route m s e = Some (Inl UnknownLocation)) \<and>
   (locations m s \<noteq> None \<and> locations m e \<noteq> None \<longrightarrow>
      Map_find_route m s e \<noteq> Some (Inl UnknownLocation))"
proof (intro conjI impI)
  assume "locations m s = None \<or> locations m e = None"
  then show "Map_find_route m s e = Some (Inl UnknownLocation)"
    by (auto simp: Map_find_route_def split: option.splits)
next
  assume "locations m s \<noteq> None \<and> locations m e \<noteq> None"
  then obtain a b where ab: "locations m s = Some a" "locations m e = Some b" by blast
  show "Map_find_route m s e \<noteq> Some (Inl UnknownLocation)"
  proof
    assume "Map_find_route m s e = Some (Inl UnknownLocation)"
    then have "find_route (heap m) a b = Some (Inl UnknownLocation)"
      using ab by (simp add: Map_find_route_def split: option.splits sum.splits)
    then show False using find_route_errors by fastforce
  qed
qed

theorem find_route_unknown_location_witness:
  "locations city_roads Elsewhere = None \<and>
   Map_find_route city_roads CityCenter Elsewhere = Some (Inl UnknownLocation) \<and>
   locations city_roads CityCenter \<noteq> None \<and> locations city_roads Suburb2 \<noteq> None \<and>
   Map_find_route city_roads CityCenter Suburb2 \<noteq> Some (Inl UnknownLocation)"
proof -
  have h1: "locations city_roads CityCenter = None \<or> locations city_roads Elsewhere = None"
    by (simp add: city_roads_eq)
  have h2: "locations city_roads CityCenter \<noteq> None \<and> locations city_roads Suburb2 \<noteq> None"
    by (simp add: city_roads_eq)
  have "locations city_roads Elsewhere = None" by (simp add: city_roads_eq)
  then show ?thesis
    using h1 h2 find_route_unknown_location [of city_roads CityCenter Elsewhere]
      find_route_unknown_location [of city_roads CityCenter Suburb2]
    by blast
qed

text \<open>
  C4, as stated: when the node of \<open>B\<close> already has a parent, \<open>add_road m C B f\<close> fails
  with \<open>InvalidTreeOperation\<close>.  It does not: nothing checks for a parent.  On the map
  with the roads centre to first suburb to second suburb, the road from the centre to
  the second suburb is added without an error, and the second suburb's parent link,
  which was the first suburb's node, is the centre's node afterwards.
\<close>

theorem add_road_second_parent_accepted:
  "locations city_roads CityCenter = Some 0 \<and>
   locations city_roads Suburb2 = Some (Suc (Suc 0)) \<and>
   parent (heap city_roads ! Suc (Suc 0)) = Some (Suc 0) \<and>
   fst (add_road city_roads CityCenter Suburb2 7) \<noteq> Inl InvalidTreeOperation \<and>
   fst (add_road city_roads CityCenter Suburb2 7) = Inr () \<and>
   parent (heap (snd (add_road city_roads CityCenter Suburb2 7)) ! Suc (Suc 0)) = Some 0"
  by (simp add: city_roads_eq add_road_def add_child_def)

text \<open>
  C4, amended: on a reachable map, when the node of \<open>B\<close> already has a parent and \<open>C\<close>
  is registered, \<open>add_road m C B f\<close> returns without an error; afterwards the parent
  link of the node of \<open>B\<close> is the node of \<open>C\<close>, the one parent link the node has, and
  the fare \<open>f\<close> is stored for the road between \<open>C\<close> and \<open>B\<close>.
\<close>

theorem add_road_second_parent_overwrites:
  assumes "reachable m" and "locations m C = Some c" and "locations m B = Some b"
    and "parent (heap m ! b) = Some q"
  shows "fst (add_road m C B f) = Inr () \<and>
         parent (heap (snd (add_road m C B f)) ! b) = Some c \<and>
         get_road_fare (snd (add_road m C B f)) C B = Inr f"
proof -
  have nr: "nodes_registered m" using reachable_inv[OF assms(1)] by (simp add: map_inv_def)
  have c: "c < length (heap m)" using nodes_registeredD[OF nr assms(2)] by simp
  have b: "b < length (heap m)" using nodes_registeredD[OF nr assms(3)] by simp
  have "parent (add_child (heap m) c b ! b) = Some c"
    using add_child_parent[OF c b, of b] by simp
  then show ?thesis
    by (simp add: add_road_succeeds[OF assms(2) assms(3)] get_road_fare_def symm_get_def
        symm_set_def)
qed

theorem add_road_second_parent_overwrites_witness:
  "reachable city_roads \<and> locations city_roads CityCenter = Some 0 \<and>
   locations city_roads Suburb2 = Some (Suc (Suc 0)) \<and>
   parent (heap city_roads ! Suc (Suc 0)) = Some (Suc 0) \<and>
   fst (add_road city_roads CityCenter Suburb2 7) = Inr () \<and>
   parent (heap (snd (add_road city_roads CityCenter Suburb2 7)) ! Suc (Suc 0)) = Some 0 \<and>
   get_road_fare (snd (add_road city_roads CityCenter Suburb2 7)) CityCenter Suburb2 = Inr 7"
proof -
  have h1: "locations city_roads CityCenter = Some 0"
    and h2: "locations city_roads Suburb2 = Some (Suc (Suc 0))"
    and h3: "parent (heap city_roads ! Suc (Suc 0)) = Some (Suc 0)"
    by (simp_all add: city_roads_eq)
  show ?thesis
    using reachable_city_roads h1 h2 h3
      add_road_second_parent_overwrites [OF reachable_city_roads h1 h2 h3, of 7]
    by simp
qed

text \<open>
  C5. On a map that is a tree at the node of a registered location \<open>X\<close> (the map is
  reachable and the chain of parent links from the node ends at a node without a
  parent, as it does on every map built as a tree), route finding from \<open>X\<close> to \<open>X\<close>
  returns \<open>[X]\<close>.  On every map the fare on the route \<open>[X]\<close> is \<open>0\<close>.
\<close>

theorem find_route_same_location:
  "(reachable m \<and> locations m X = Some a \<and> chain_ends (heap m) a \<longrightarrow>
      Map_find_route m X X = Some (Inr [X])) \<and>
   get_fare_on_route m' [X] = Inr 0"
proof (intro conjI impI)
  assume h: "reachable m \<and> locations m X = Some a \<and> chain_ends (heap m) a"
  then have "map_inv m" using reachable_inv by blast
  then have nr: "nodes_registered m" by (simp add: map_inv_def)
  have "node_value (heap m ! a) = X" using nodes_registeredD[OF nr] h by blast
  moreover have "find_route (heap m) a a = Some (Inr [a])"
    using h find_route_same by blast
  ultimately show "Map_find_route m X X = Some (Inr [X])"
    using h by (simp add: Map_find_route_def)
next
  show "get_fare_on_route m' [X] = Inr 0"
    by (simp add: get_fare_on_route_def route_pairs_def py_sum_def)
qed

theorem find_route_same_location_witness:
  "reachable city_roads \<and> locations city_roads Suburb2 = Some (Suc (Suc 0)) \<and>
   chain_ends (heap city_roads) (Suc (Suc 0)) \<and>
   Map_find_route city_roads Suburb2 Suburb2 = Some (Inr [Suburb2]) \<and>
   get_fare_on_route city [Suburb2] = Inr 0"
proof -
  have h2: "locations city_roads Suburb2 = Some (Suc (Suc 0))" by (simp add: city_roads_eq)
  have "chain_ends (heap city_roads) 0"
    by (rule chain_ends.top) (simp add: city_roads_eq)
  then have "chain_ends (heap city_roads) (Suc 0)"
    by (rule chain_ends.up[rotated]) (simp add: city_roads_eq)
  then have h3: "chain_ends (heap city_roads) (Suc (Suc 0))"
    by (rule chain_ends.up[rotated]) (simp add: city_roads_eq)
  show ?thesis
    using reachable_city_roads h2 h3
      find_route_same_location [of city_roads Suburb2 "Suc (Suc 0)" city]
    by simp
qed

text \<open>
  C6. Registering a location twice: the second call changes nothing, the location is
  registered, and on a reachable map exactly one allocated tree node holds it: the
  node it is registered with is allocated and holds it, and no other allocated node
  does.
\<close>

theorem register_location_twice:
  "register_location (register_location m L) L = register_location m L \<and>
   (\<exists>a. locations (register_location (register_location m L) L) L = Some a \<and>
        (reachable m \<longrightarrow>
           a < length (heap (register_location (register_location m L) L)) \<and>
           node_value (heap (register_location (register_location m L) L) ! a) = L \<and>
           (\<forall>b. b < length (heap (register_location (register_location m L) L)) \<longrightarrow>
                (node_value (heap (register_location (register_location m L) L) ! b) = L) = (b = a))))"
proof -
  let ?m1 = "register_location m L"
  obtain a where a: "locations ?m1 L = Some a"
    by (cases "locations m L") (auto simp: register_location_new register_location_old)
  then have same: "register_location ?m1 L = ?m1" by (rule register_location_old)
  have holds: "a < length (heap ?m1) \<and> node_value (heap ?m1 ! a) = L" if "reachable m"
  proof -
    have "reachable ?m1" using that by (rule reachable.register)
    then have "map_inv ?m1" by (rule reachable_inv)
    then have nr: "nodes_registered ?m1" by (simp add: map_inv_def)
    show ?thesis using nodes_registeredD[OF nr a] .
  qed
  have only: "(node_value (heap ?m1 ! b) = L) = (b = a)"
    if "reachable m" "b < length (heap ?m1)" for b
  proof -
    have "reachable ?m1" using that(1) by (rule reachable.register)
    then have "map_inv ?m1" by (rule reachable_inv)
    then have nr: "nodes_registered ?m1" by (simp add: map_inv_def)
    have "locations ?m1 (node_value (heap ?m1 ! b)) = Some b"
      using nr that(2) by (rule nodes_registeredD2)
    moreover have "node_value (heap ?m1 ! a) = L" using nodes_registeredD[OF nr a] by simp
    ultimately show ?thesis using a by auto
  qed
  show ?thesis unfolding same using a holds only by blast
qed

theorem register_location_twice_witness:
  "reachable city \<and>
   register_location (register_location city Suburb1) Suburb1 = register_location city Suburb1 \<and>
   locations (register_location (register_location city Suburb1) Suburb1) Suburb1 = Some (Suc 0) \<and>
   Suc 0 < length (heap (register_location (register_location city Suburb1) Suburb1)) \<and>
   node_value (heap (register_location (register_location city Suburb1) Suburb1) ! Suc 0) = Suburb1 \<and>
   node_value (heap (register_location (register_location city Suburb1) Suburb1) ! 0) \<noteq> Suburb1"
proof -
  let ?m2 = "register_location (register_location city Suburb1) Suburb1"
  from register_location_twice [of city Suburb1] reachable_city
  obtain a where same: "?m2 = register_location city Suburb1"
    and a: "locations ?m2 Suburb1 = Some a"
    and alloc: "a < length (heap ?m2)"
    and holds: "node_value (heap ?m2 ! a) = Suburb1"
    and only: "\<And>b. b < length (heap ?m2) \<Longrightarrow> (node_value (heap ?m2 ! b) = Suburb1) = (b = a)"
    by blast
  have eq: "?m2 =
      \<lparr>roads = Map.empty, root = 0, locations = [CityCenter \<mapsto> 0, Suburb1 \<mapsto> Suc 0],
       heap = [Tree_new CityCenter, Tree_new Suburb1]\<rparr>"
    unfolding same by (simp add: city_def register_location_def)
  have a1: "a = Suc 0" using a by (simp add: eq)
  have "0 < length (heap ?m2)" by (simp add: eq)
  then have "node_value (heap ?m2 ! 0) \<noteq> Suburb1" using only a1 by simp
  then show ?thesis using reachable_city same a alloc holds a1 by simp
qed

text \<open>
  C7. On every map reachable through the constructor, \<open>register_location\<close> and
  \<open>add_road\<close>, every location of a stored road is registered and every parent-child
  edge of the tree has a fare stored for its two locations.
\<close>

theorem reachable_roads_consistent:
  assumes "reachable m"
  shows "road_ends_registered m \<and> edges_have_fares m"
  using reachable_inv[OF assms] by (simp add: map_inv_def)

theorem reachable_roads_consistent_witness:
  "reachable city_roads \<and> road_ends_registered city_roads \<and> edges_have_fares city_roads"
  using reachable_city_roads reachable_roads_consistent [OF reachable_city_roads] by simp

text \<open>
  C8. Two different \<open>Place\<close> objects with the same name compare equal and have
  different hashes, so a dictionary keeps them as two keys.
\<close>

theorem place_equal_hash_differs:
  "\<exists>p1 p2. place_id p1 \<noteq> place_id p2 \<and> Place.name p1 = Place.name p2 \<and>
           Place_eq p1 p2 \<and> Place_hash p1 \<noteq> Place_hash p2 \<and> \<not> same_dict_key p1 p2"
proof (intro exI conjI)
  let ?p1 = "\<lparr>place_id = 1, name = ''Pune''\<rparr>" and ?p2 = "\<lparr>place_id = 2, name = ''Pune''\<rparr>"
  show "place_id ?p1 \<noteq> place_id ?p2" by simp
  show "Place.name ?p1 = Place.name ?p2" by simp
  show "Place_eq ?p1 ?p2" by (simp add: Place_eq_def)
  show "Place_hash ?p1 \<noteq> Place_hash ?p2" by (simp add: Place_hash_def)
  show "\<not> same_dict_key ?p1 ?p2" by (simp add: same_dict_key_def Place_hash_def)
qed

text \<open>
  C9. When \<open>A\<close> or \<open>B\<close> is not registered, \<open>add_road m A B f\<close> raises at the lookup and
  the map is what it was: tree, location registry and road registry.
\<close>

theorem add_road_unregistered_unchanged:
  assumes "locations m A = None \<or> locations m B = None"
  shows "add_road m A B f = (Inl UnknownLocation, m)"
  using assms by (auto simp: add_road_def split: option.splits)

theorem add_road_unregistered_unchanged_witness:
  "locations city_roads Elsewhere = None \<and>
   add_road city_roads Suburb1 Elsewhere 3 = (Inl UnknownLocation, city_roads) \<and>
   add_road city_roads Elsewhere Suburb1 3 = (Inl UnknownLocation, city_roads)"
proof -
  have h: "locations city_roads Elsewhere = None" by (simp add: city_roads_eq)
  then have h1: "locations city_roads Suburb1 = None \<or> locations city_roads Elsewhere = None"
    and h2: "locations city_roads Elsewhere = None \<or> locations city_roads Suburb1 = None"
    by simp_all
  show ?thesis
    using h add_road_unregistered_unchanged [OF h1, of 3] add_road_unregistered_unchanged [OF h2, of 3]
    by simp
qed

text \<open>
  C10. The fare on the empty route is \<open>0\<close>, on every map, and no pair of locations is
  looked up.
\<close>

theorem empty_route_fare_zero:
  "get_fare_on_route m [] = Inr 0 \<and> route_pairs ([] :: 'loc list) = []"
  by (simp add: get_fare_on_route_def route_pairs_def py_sum_def)

end
